theory Spec2Isabelle
  imports Complex_Main
begin

section \<open>Calendar arithmetic used by the date dimension\<close>

text \<open>
  The generator builds its dates as \<^verbatim>\<open>datetime(2023, 1, 1) + timedelta(days=x)\<close>.
  Python adds a number of days to a date by going through the proleptic Gregorian
  ordinal (day 1 is 0001-01-01): the date is turned into its ordinal, the days are
  added, and the sum is turned back into year, month and day. The functions below
  follow the \<^verbatim>\<open>datetime\<close> module (\<^verbatim>\<open>_is_leap\<close>, \<^verbatim>\<open>_days_before_year\<close>,
  \<^verbatim>\<open>_days_before_month\<close>, \<^verbatim>\<open>_ymd2ord\<close>, \<^verbatim>\<open>_ord2ymd\<close>, \<^verbatim>\<open>weekday\<close>).
  A date is the triple (year, month, day).
\<close>

type_synonym date = "int \<times> int \<times> int"

definition is_leap :: "int \<Rightarrow> bool" where
  "is_leap year \<longleftrightarrow> year mod 4 = 0 \<and> (year mod 100 \<noteq> 0 \<or> year mod 400 = 0)"

definition days_before_year :: "int \<Rightarrow> int" where
  "days_before_year year =
     (let y = year - 1 in y * 365 + y div 4 - y div 100 + y div 400)"

text \<open>The table \<^verbatim>\<open>_DAYS_IN_MONTH\<close>; index 0 holds the placeholder -1.\<close>

definition DAYS_IN_MONTH :: "int list" where
  "DAYS_IN_MONTH = [-1, 31, 28, 31, 30, 31, 30, 31, 31, 30, 31, 30, 31]"

text \<open>The table \<^verbatim>\<open>_DAYS_BEFORE_MONTH\<close>: days of the year before the first of a month.\<close>

definition DAYS_BEFORE_MONTH :: "int list" where
  "DAYS_BEFORE_MONTH = [-1, 0, 31, 59, 90, 120, 151, 181, 212, 243, 273, 304, 334]"

definition days_before_month :: "int \<Rightarrow> int \<Rightarrow> int" where
  "days_before_month year month =
     DAYS_BEFORE_MONTH ! nat month + (if month > 2 \<and> is_leap year then 1 else 0)"

definition ymd2ord :: "date \<Rightarrow> int" where
  "ymd2ord dt = (case dt of (year, month, day) \<Rightarrow>
     days_before_year year + days_before_month year month + day)"

definition DI400Y :: int where "DI400Y = days_before_year 401"
definition DI100Y :: int where "DI100Y = days_before_year 101"
definition DI4Y :: int where "DI4Y = days_before_year 5"

definition ord2ymd :: "int \<Rightarrow> date" where
  "ord2ymd ordinal =
     (let n = ordinal - 1;
          n400 = n div DI400Y; n = n mod DI400Y;
          year = n400 * 400 + 1;
          n100 = n div DI100Y; n = n mod DI100Y;
          n4 = n div DI4Y; n = n mod DI4Y;
          n1 = n div 365; n = n mod 365;
          year = year + n100 * 100 + n4 * 4 + n1
      in if n1 = 4 \<or> n100 = 4 then (year - 1, 12, 31)
         else
           let leapyear = (n1 = 3 \<and> (n4 \<noteq> 24 \<or> n100 = 3));
               month = (n + 50) div 32;
               preceding = DAYS_BEFORE_MONTH ! nat month
                           + (if month > 2 \<and> leapyear then 1 else 0)
           in if preceding > n
              then
                let month = month - 1;
                    preceding = preceding - (DAYS_IN_MONTH ! nat month
                                  + (if month = 2 \<and> leapyear then 1 else 0))
                in (year, month, n - preceding + 1)
              else (year, month, n - preceding + 1))"

text \<open>\<^verbatim>\<open>date + timedelta(days=x)\<close>.\<close>

definition add_days :: "date \<Rightarrow> int \<Rightarrow> date" where
  "add_days dt x = ord2ymd (ymd2ord dt + x)"

text \<open>\<^verbatim>\<open>dayofweek\<close>: Monday is 0 and Sunday is 6.\<close>

definition dayofweek :: "date \<Rightarrow> int" where
  "dayofweek dt = (ymd2ord dt + 6) mod 7"



section \<open>The dimension tables\<close>

subsection \<open>DIM_DATE\<close>

record dim_date_row =
  dd_date :: date
  dd_date_key :: int
  dd_year :: int
  dd_month :: int
  dd_month_name :: string
  dd_quarter :: int
  dd_is_weekend :: bool

definition start_date :: date where
  "start_date = (2023, 1, 1)"

definition dates :: "date list" where
  "dates = map (\<lambda>x. add_days start_date (int x)) [0..<456]"

text \<open>
  \<^verbatim>\<open>strftime('%Y%m%d').astype(int)\<close>: the digits of the four-digit year, the two-digit
  month and the two-digit day, read as one decimal number.
\<close>

definition date_key_of :: "date \<Rightarrow> int" where
  "date_key_of dt = (case dt of (y, m, d) \<Rightarrow> y * 10000 + m * 100 + d)"

text \<open>\<^verbatim>\<open>strftime('%b')\<close>: the abbreviated month name.\<close>

definition month_abbr :: "int \<Rightarrow> string" where
  "month_abbr m = [''Jan'', ''Feb'', ''Mar'', ''Apr'', ''May'', ''Jun'',
                   ''Jul'', ''Aug'', ''Sep'', ''Oct'', ''Nov'', ''Dec''] ! nat (m - 1)"

definition quarter_of :: "int \<Rightarrow> int" where
  "quarter_of m = (m - 1) div 3 + 1"

definition dim_date_of :: "date \<Rightarrow> dim_date_row" where
  "dim_date_of dt = (case dt of (y, m, d) \<Rightarrow>
     \<lparr> dd_date = dt,
       dd_date_key = date_key_of dt,
       dd_year = y,
       dd_month = m,
       dd_month_name = month_abbr m,
       dd_quarter = quarter_of m,
       dd_is_weekend = (dayofweek dt \<ge> 5) \<rparr>)"

definition dim_date :: "dim_date_row list" where
  "dim_date = map dim_date_of dates"

subsection \<open>DIM_SOURCE\<close>

record dim_source_row =
  ds_source_id :: int
  ds_source_name :: string
  ds_channel :: string

definition sources_data :: "(int \<times> string \<times> string) list" where
  "sources_data =
     [(1, ''Amazon Ad Server'', ''Programmatic''),
      (2, ''StackAdapt'', ''Programmatic''),
      (3, ''DV360'', ''Programmatic''),
      (4, ''Search Ads 360'', ''Paid Search''),
      (5, ''Bing Ads'', ''Paid Search''),
      (6, ''Facebook'', ''Paid Social''),
      (7, ''LinkedIn Ads'', ''Paid Social''),
      (8, ''Organic Search'', ''Organic'')]"

definition dim_source :: "dim_source_row list" where
  "dim_source = map (\<lambda>(i, n, c).
     \<lparr> ds_source_id = i, ds_source_name = n, ds_channel = c \<rparr>) sources_data"

subsection \<open>DIM_CAMPAIGN\<close>

record dim_campaign_row =
  dc_campaign_id :: int
  dc_campaign_name :: string
  dc_ad_set_name :: string
  dc_channel_scope :: string
  dc_objective :: string

definition campaign_config :: "(string \<times> string \<times> string) list" where
  "campaign_config =
     [(''Business-focused zero tolerance'', ''Programmatic'', ''Brand Awareness''),
      (''Profound intangible policy'', ''Programmatic'', ''Brand Awareness''),
      (''Networked value-added time-frame'', ''Programmatic'', ''Consideration''),
      (''Persistent 24/7 attitude'', ''Paid Social'', ''Lead Gen''),
      (''Centralized modular throughput'', ''Paid Social'', ''Conversion''),
      (''Integrated dedicated contingency'', ''Paid Search'', ''Conversion''),
      (''Automated uniform software'', ''Paid Search'', ''Lead Gen''),
      (''Cross-platform static hierarchy'', ''Organic'', ''Traffic'')]"

text \<open>
  The inner loop over the two tiers: one row is appended per tier and the id counter
  is incremented after each. The state is the pair of the rows so far and the counter.
\<close>

fun tier_loop ::
  "string \<Rightarrow> string \<Rightarrow> string \<Rightarrow> string list \<Rightarrow> dim_campaign_row list \<times> int
     \<Rightarrow> dim_campaign_row list \<times> int" where
  "tier_loop name scope objective [] st = st"
| "tier_loop name scope objective (tier # tiers) (campaign_rows, id_counter) =
     tier_loop name scope objective tiers
       (campaign_rows @
          [\<lparr> dc_campaign_id = id_counter,
             dc_campaign_name = name,
             dc_ad_set_name = name @ tier,
             dc_channel_scope = scope,
             dc_objective = objective \<rparr>],
        id_counter + 1)"

text \<open>The outer loop over the campaign configuration.\<close>

fun campaign_loop ::
  "(string \<times> string \<times> string) list \<Rightarrow> dim_campaign_row list \<times> int
     \<Rightarrow> dim_campaign_row list \<times> int" where
  "campaign_loop [] st = st"
| "campaign_loop ((name, scope, objective) # cfg) st =
     campaign_loop cfg (tier_loop name scope objective [''_Tier1'', ''_Tier2''] st)"

definition dim_campaign :: "dim_campaign_row list" where
  "dim_campaign = fst (campaign_loop campaign_config ([], 1))"

section \<open>The fact skeleton\<close>

text \<open>
  A row of \<^verbatim>\<open>df_fact\<close> before the metric columns are added: the columns of the campaign
  row, those of the source row it was joined with, and the four date columns selected
  for the cross join.
\<close>

record link_row =
  lk_campaign :: dim_campaign_row
  lk_source :: dim_source_row

record skel_row =
  sk_campaign_id :: int
  sk_campaign_name :: string
  sk_ad_set_name :: string
  sk_channel_scope :: string
  sk_objective :: string
  sk_source_id :: int
  sk_source_name :: string
  sk_channel :: string
  sk_date_key :: int
  sk_is_weekend :: bool
  sk_year :: int
  sk_month :: int

text \<open>
  Step A, \<^verbatim>\<open>dim_campaign.merge(dim_source, left_on='channel_scope', right_on='channel')\<close>:
  an inner join. Each campaign row is paired with every source row whose channel
  equals the campaign's channel scope; a campaign row with no such source yields no row.
\<close>

definition merge_on_channel ::
  "dim_campaign_row list \<Rightarrow> dim_source_row list \<Rightarrow> link_row list" where
  "merge_on_channel cs ss =
     concat (map (\<lambda>c. map (\<lambda>s. \<lparr> lk_campaign = c, lk_source = s \<rparr>)
                          (filter (\<lambda>s. dc_channel_scope c = ds_channel s) ss)) cs)"

definition skel_of :: "link_row \<Rightarrow> dim_date_row \<Rightarrow> skel_row" where
  "skel_of l d =
     \<lparr> sk_campaign_id = dc_campaign_id (lk_campaign l),
       sk_campaign_name = dc_campaign_name (lk_campaign l),
       sk_ad_set_name = dc_ad_set_name (lk_campaign l),
       sk_channel_scope = dc_channel_scope (lk_campaign l),
       sk_objective = dc_objective (lk_campaign l),
       sk_source_id = ds_source_id (lk_source l),
       sk_source_name = ds_source_name (lk_source l),
       sk_channel = ds_channel (lk_source l),
       sk_date_key = dd_date_key d,
       sk_is_weekend = dd_is_weekend d,
       sk_year = dd_year d,
       sk_month = dd_month d \<rparr>"

text \<open>
  Step B, \<^verbatim>\<open>schema_link.merge(dim_date[[...]], how='cross')\<close>: every linked row with
  every date row.
\<close>

definition merge_cross :: "link_row list \<Rightarrow> dim_date_row list \<Rightarrow> skel_row list" where
  "merge_cross ls ds = concat (map (\<lambda>l. map (\<lambda>d. skel_of l d) ds) ls)"

definition schema_link :: "link_row list" where
  "schema_link = merge_on_channel dim_campaign dim_source"

definition df_fact :: "skel_row list" where
  "df_fact = merge_cross schema_link dim_date"

section \<open>The metric synthesizer\<close>

text \<open>
  Floating-point numbers are modelled by the real numbers: every product and quotient
  below is exact, where the program rounds to the nearest double. The integer
  conversions and the two-decimal rounding of the program are modelled as they are.
\<close>

subsection \<open>Random draws\<close>

text \<open>
  The program draws thirteen arrays from the unseeded generator of the numeric library.
  The draws are the input of the model: one list per call, in the order of the calls.
\<close>

record draws =
  prog_imps :: "int list"
  prog_ctrs :: "real list"
  prog_cpcs :: "real list"
  search_imps :: "int list"
  search_ctrs :: "real list"
  search_cpcs :: "real list"
  social_imps :: "int list"
  social_ctrs :: "real list"
  social_cpcs :: "real list"
  org_imps :: "int list"
  org_ctrs :: "real list"
  conv_rates :: "real list"
  video_var :: "real list"

text \<open>
  \<^verbatim>\<open>randint(low, high, size)\<close> returns \<open>n = size\<close> integers from \<open>low\<close> (inclusive) to
  \<open>high\<close> (exclusive).
\<close>

definition randint_ok :: "int \<Rightarrow> int \<Rightarrow> nat \<Rightarrow> int list \<Rightarrow> bool" where
  "randint_ok low high n xs \<longleftrightarrow>
     length xs = n \<and> list_all (\<lambda>x. low \<le> x \<and> x < high) xs"

text \<open>
  \<^verbatim>\<open>uniform(low, high, size)\<close> returns \<open>n = size\<close> numbers between \<open>low\<close> and \<open>high\<close>.
  The upper end is admitted here, since rounding can make the library return it.
\<close>

definition uniform_ok :: "real \<Rightarrow> real \<Rightarrow> nat \<Rightarrow> real list \<Rightarrow> bool" where
  "uniform_ok low high n xs \<longleftrightarrow>
     length xs = n \<and> list_all (\<lambda>x. low \<le> x \<and> x \<le> high) xs"

subsection \<open>Operations on whole columns\<close>

text \<open>\<^verbatim>\<open>mask.sum()\<close>: the number of selected rows.\<close>

definition mask_sum :: "bool list \<Rightarrow> nat" where
  "mask_sum ms = length (filter (\<lambda>m. m) ms)"

text \<open>
  \<^verbatim>\<open>arr[mask] = values\<close>: the values are written, in order, to the selected positions.
  The program always passes as many values as the mask selects (the library raises an
  error otherwise); with too few values the remaining positions are left as they are.
\<close>

fun mask_assign :: "'a list \<Rightarrow> bool list \<Rightarrow> 'a list \<Rightarrow> 'a list" where
  "mask_assign (x # xs) (True # ms) (v # vs) = v # mask_assign xs ms vs"
| "mask_assign (x # xs) (False # ms) vs = x # mask_assign xs ms vs"
| "mask_assign xs ms vs = xs"

text \<open>\<^verbatim>\<open>arr[mask] = c\<close> for a single number \<open>c\<close>.\<close>

definition mask_fill :: "'a list \<Rightarrow> bool list \<Rightarrow> 'a \<Rightarrow> 'a list" where
  "mask_fill xs ms c = map2 (\<lambda>x m. if m then c else x) xs ms"

text \<open>\<^verbatim>\<open>arr[mask] *= c\<close>.\<close>

definition mask_scale :: "real list \<Rightarrow> bool list \<Rightarrow> real \<Rightarrow> real list" where
  "mask_scale xs ms c = map2 (\<lambda>x m. if m then x * c else x) xs ms"

text \<open>\<^verbatim>\<open>df.loc[mask, column]\<close>: the selected entries of a column, in order.\<close>

definition mask_select :: "'a list \<Rightarrow> bool list \<Rightarrow> 'a list" where
  "mask_select xs ms = map fst (filter snd (zip xs ms))"

text \<open>\<^verbatim>\<open>astype(int)\<close> on a float: truncation towards zero.\<close>

definition astype_int :: "real \<Rightarrow> int" where
  "astype_int x = (if x \<ge> 0 then \<lfloor>x\<rfloor> else \<lceil>x\<rceil>)"

text \<open>Rounding to the nearest integer, a tie going to the even neighbour.\<close>

definition rint :: "real \<Rightarrow> int" where
  "rint x = (let f = \<lfloor>x\<rfloor>; d = x - of_int f
             in if d < 1 / 2 then f
                else if d > 1 / 2 then f + 1
                else if even f then f else f + 1)"

text \<open>\<^verbatim>\<open>round(2)\<close>: scale by 100, round to the nearest integer, scale back.\<close>

definition round2 :: "real \<Rightarrow> real" where
  "round2 x = of_int (rint (x * 100)) / 100"

subsection \<open>Step C: the metric columns\<close>

definition seasonality :: "skel_row list \<Rightarrow> real list" where
  "seasonality df = map (\<lambda>r. if sk_is_weekend r then 0.7 else 1.1) df"

definition mask_prog :: "skel_row list \<Rightarrow> bool list" where
  "mask_prog df = map (\<lambda>r. sk_channel r = ''Programmatic'') df"

definition mask_search :: "skel_row list \<Rightarrow> bool list" where
  "mask_search df = map (\<lambda>r. sk_channel r = ''Paid Search'') df"

definition mask_social :: "skel_row list \<Rightarrow> bool list" where
  "mask_social df = map (\<lambda>r. sk_channel r = ''Paid Social'') df"

definition mask_org :: "skel_row list \<Rightarrow> bool list" where
  "mask_org df = map (\<lambda>r. sk_channel r = ''Organic'') df"

text \<open>
  The draws the program asks for: each array has the size of its mask and the range of
  its call.
\<close>

definition valid_draws :: "skel_row list \<Rightarrow> draws \<Rightarrow> bool" where
  "valid_draws df g \<longleftrightarrow>
     randint_ok 5000 15000 (mask_sum (mask_prog df)) (prog_imps g) \<and>
     uniform_ok 0.003 0.007 (mask_sum (mask_prog df)) (prog_ctrs g) \<and>
     uniform_ok 0.30 0.90 (mask_sum (mask_prog df)) (prog_cpcs g) \<and>
     randint_ok 300 1200 (mask_sum (mask_search df)) (search_imps g) \<and>
     uniform_ok 0.08 0.12 (mask_sum (mask_search df)) (search_ctrs g) \<and>
     uniform_ok 2.50 6.00 (mask_sum (mask_search df)) (search_cpcs g) \<and>
     randint_ok 1000 4000 (mask_sum (mask_social df)) (social_imps g) \<and>
     uniform_ok 0.015 0.035 (mask_sum (mask_social df)) (social_ctrs g) \<and>
     uniform_ok 1.50 3.50 (mask_sum (mask_social df)) (social_cpcs g) \<and>
     randint_ok 1000 3000 (mask_sum (mask_org df)) (org_imps g) \<and>
     uniform_ok 0.05 0.08 (mask_sum (mask_org df)) (org_ctrs g) \<and>
     uniform_ok 0.05 0.15 (length df) (conv_rates g) \<and>
     uniform_ok 0.8 1.2
       (mask_sum (map (\<lambda>r. sk_channel r \<in> set [''Programmatic'', ''Paid Social'']) df))
       (video_var g)"

text \<open>\<^verbatim>\<open>base_imps\<close> after the four channel assignments.\<close>

definition base_imps :: "skel_row list \<Rightarrow> draws \<Rightarrow> real list" where
  "base_imps df g =
     (let a = replicate (length df) 0;
          a = mask_assign a (mask_prog df) (map of_int (prog_imps g));
          a = mask_assign a (mask_search df) (map of_int (search_imps g));
          a = mask_assign a (mask_social df) (map of_int (social_imps g));
          a = mask_assign a (mask_org df) (map of_int (org_imps g))
      in a)"

text \<open>\<^verbatim>\<open>ctrs\<close> after the four channel assignments.\<close>

definition ctrs :: "skel_row list \<Rightarrow> draws \<Rightarrow> real list" where
  "ctrs df g =
     (let a = replicate (length df) 0;
          a = mask_assign a (mask_prog df) (prog_ctrs g);
          a = mask_assign a (mask_search df) (search_ctrs g);
          a = mask_assign a (mask_social df) (social_ctrs g);
          a = mask_assign a (mask_org df) (org_ctrs g)
      in a)"

text \<open>\<^verbatim>\<open>cpcs\<close> after the four channel assignments, before the December adjustment.\<close>

definition cpcs_drawn :: "skel_row list \<Rightarrow> draws \<Rightarrow> real list" where
  "cpcs_drawn df g =
     (let a = replicate (length df) 0;
          a = mask_assign a (mask_prog df) (prog_cpcs g);
          a = mask_assign a (mask_search df) (search_cpcs g);
          a = mask_assign a (mask_social df) (social_cpcs g);
          a = mask_fill a (mask_org df) 0.0
      in a)"

text \<open>\<^verbatim>\<open>final_imps = base_imps * seasonality\<close>, before the August adjustment.\<close>

definition seasonal_imps :: "skel_row list \<Rightarrow> draws \<Rightarrow> real list" where
  "seasonal_imps df g = map2 (\<lambda>b s. b * s) (base_imps df g) (seasonality df)"

definition mask_spike :: "skel_row list \<Rightarrow> bool list" where
  "mask_spike df =
     map (\<lambda>r. sk_year r = 2023 \<and> sk_month r = 8 \<and> sk_channel r = ''Programmatic'') df"

text \<open>\<^verbatim>\<open>final_imps\<close> after \<^verbatim>\<open>final_imps[mask_spike] *= 3.0\<close>.\<close>

definition final_imps :: "skel_row list \<Rightarrow> draws \<Rightarrow> real list" where
  "final_imps df g = mask_scale (seasonal_imps df g) (mask_spike df) 3.0"

definition mask_effic :: "skel_row list \<Rightarrow> bool list" where
  "mask_effic df =
     map (\<lambda>r. sk_year r = 2023 \<and> sk_month r = 12 \<and> sk_channel r = ''Paid Search'') df"

text \<open>\<^verbatim>\<open>cpcs\<close> after \<^verbatim>\<open>cpcs[mask_effic] *= 0.7\<close>.\<close>

definition cpcs :: "skel_row list \<Rightarrow> draws \<Rightarrow> real list" where
  "cpcs df g = mask_scale (cpcs_drawn df g) (mask_effic df) 0.7"

definition impressions :: "skel_row list \<Rightarrow> draws \<Rightarrow> int list" where
  "impressions df g = map astype_int (final_imps df g)"

definition clicks :: "skel_row list \<Rightarrow> draws \<Rightarrow> int list" where
  "clicks df g =
     map astype_int (map2 (\<lambda>i c. of_int i * c) (impressions df g) (ctrs df g))"

definition spend :: "skel_row list \<Rightarrow> draws \<Rightarrow> real list" where
  "spend df g = map round2 (map2 (\<lambda>k c. of_int k * c) (clicks df g) (cpcs df g))"

definition conversions :: "skel_row list \<Rightarrow> draws \<Rightarrow> int list" where
  "conversions df g =
     map astype_int (map2 (\<lambda>k r. of_int k * r) (clicks df g) (conv_rates g))"

definition mask_video :: "skel_row list \<Rightarrow> bool list" where
  "mask_video df = map (\<lambda>r. sk_channel r \<in> set [''Programmatic'', ''Paid Social'']) df"

definition video_views :: "skel_row list \<Rightarrow> draws \<Rightarrow> int list" where
  "video_views df g =
     mask_assign (replicate (length df) 0) (mask_video df)
       (map astype_int
          (map2 (\<lambda>i v. of_int i * 0.40 * v)
             (mask_select (impressions df g) (mask_video df)) (video_var g)))"

section \<open>Export\<close>

record fact_row =
  fr_date_key :: int
  fr_source_id :: int
  fr_campaign_id :: int
  fr_impressions :: int
  fr_clicks :: int
  fr_spend :: real
  fr_conversions :: int
  fr_video_views :: int

text \<open>\<^verbatim>\<open>fact_final = df_fact[fact_columns]\<close>: the keys and the metrics of every row.\<close>

definition fact_final :: "skel_row list \<Rightarrow> draws \<Rightarrow> fact_row list" where
  "fact_final df g =
     map (\<lambda>i. \<lparr> fr_date_key = sk_date_key (df ! i),
                fr_source_id = sk_source_id (df ! i),
                fr_campaign_id = sk_campaign_id (df ! i),
                fr_impressions = impressions df g ! i,
                fr_clicks = clicks df g ! i,
                fr_spend = spend df g ! i,
                fr_conversions = conversions df g ! i,
                fr_video_views = video_views df g ! i \<rparr>) [0..<length df]"

record campaign_final_row =
  cf_campaign_id :: int
  cf_campaign_name :: string
  cf_ad_set_name :: string
  cf_objective :: string

text \<open>\<^verbatim>\<open>dim_campaign.drop(columns=['channel_scope'])\<close>.\<close>

definition dim_campaign_final :: "campaign_final_row list" where
  "dim_campaign_final =
     map (\<lambda>c. \<lparr> cf_campaign_id = dc_campaign_id c,
                cf_campaign_name = dc_campaign_name c,
                cf_ad_set_name = dc_ad_set_name c,
                cf_objective = dc_objective c \<rparr>) dim_campaign"

text \<open>The four tables the generator writes, as a function of the random draws.\<close>

record star_schema =
  out_dim_date :: "dim_date_row list"
  out_dim_source :: "dim_source_row list"
  out_dim_campaign :: "campaign_final_row list"
  out_fact_performance :: "fact_row list"

definition generate_marketing_star_schema :: "draws \<Rightarrow> star_schema" where
  "generate_marketing_star_schema g =
     \<lparr> out_dim_date = dim_date,
       out_dim_source = dim_source,
       out_dim_campaign = dim_campaign_final,
       out_fact_performance = fact_final df_fact g \<rparr>"

section \<open>The enrichment stage\<close>

text \<open>
  The enrichment script divides whole columns. A division of floating-point columns
  never raises: a zero denominator gives an infinity, or the not-a-number value when
  the numerator is zero as well. The \<^verbatim>\<open>where\<close> selection then picks, row by row,
  the quotient or the literal 0.
\<close>

datatype fval = Fin real | PosInf | NegInf | NaN

definition fdiv :: "real \<Rightarrow> real \<Rightarrow> fval" where
  "fdiv a b = (if b \<noteq> 0 then Fin (a / b)
               else if a > 0 then PosInf else if a < 0 then NegInf else NaN)"

text \<open>Multiplication by a positive constant.\<close>

fun fscale :: "fval \<Rightarrow> real \<Rightarrow> fval" where
  "fscale (Fin x) c = Fin (x * c)"
| "fscale v c = v"

definition np_where :: "bool \<Rightarrow> 'a \<Rightarrow> 'a \<Rightarrow> 'a" where
  "np_where c x y = (if c then x else y)"

text \<open>The metric columns of a row of \<^verbatim>\<open>df_master\<close> that the four formulas read.\<close>

record master_row =
  mr_impressions :: int
  mr_clicks :: int
  mr_spend :: real
  mr_conversions :: int

definition CPM :: "master_row \<Rightarrow> fval" where
  "CPM r = np_where (mr_impressions r > 0)
             (fscale (fdiv (mr_spend r) (of_int (mr_impressions r))) 1000) (Fin 0)"

definition CTR :: "master_row \<Rightarrow> fval" where
  "CTR r = np_where (mr_impressions r > 0)
             (fscale (fdiv (of_int (mr_clicks r)) (of_int (mr_impressions r))) 100) (Fin 0)"

definition CPC :: "master_row \<Rightarrow> fval" where
  "CPC r = np_where (mr_clicks r > 0)
             (fdiv (mr_spend r) (of_int (mr_clicks r))) (Fin 0)"

definition Conversion_Rate :: "master_row \<Rightarrow> fval" where
  "Conversion_Rate r = np_where (mr_clicks r > 0)
             (fscale (fdiv (of_int (mr_conversions r)) (of_int (mr_clicks r))) 100) (Fin 0)"

record kpi_row =
  kr_CPM :: fval
  kr_CTR :: fval
  kr_CPC :: fval
  kr_Conversion_Rate :: fval

text \<open>The four columns the script appends, for a whole table.\<close>

definition enrich :: "master_row list \<Rightarrow> (master_row \<times> kpi_row) list" where
  "enrich df_master =
     map (\<lambda>r. (r, \<lparr> kr_CPM = CPM r, kr_CTR = CTR r, kr_CPC = CPC r,
                     kr_Conversion_Rate = Conversion_Rate r \<rparr>)) df_master"

section \<open>Auxiliary notions for the statements\<close>

text \<open>
  The number of selected rows before row \<open>i\<close>: the position, among the values of a
  masked assignment, of the value that row \<open>i\<close> receives.
\<close>

definition mask_rank :: "bool list \<Rightarrow> nat \<Rightarrow> nat" where
  "mask_rank ms i = mask_sum (take i ms)"

text \<open>The channel of the source with a given id, looked up in \<^verbatim>\<open>dim_source\<close>.\<close>

definition source_channel :: "int \<Rightarrow> string option" where
  "source_channel sid = map_option ds_channel (find (\<lambda>s. ds_source_id s = sid) dim_source)"

text \<open>The channel scope of the campaign with a given id, looked up in \<^verbatim>\<open>dim_campaign\<close>.\<close>

definition campaign_channel_scope :: "int \<Rightarrow> string option" where
  "campaign_channel_scope cid =
     map_option dc_channel_scope (find (\<lambda>c. dc_campaign_id c = cid) dim_campaign)"

text \<open>The number of pairs of a campaign row and a source row that share a channel.\<close>

definition pairs_sharing_channel :: nat where
  "pairs_sharing_channel =
     length (filter (\<lambda>(c, s). dc_channel_scope c = ds_channel s)
               (List.product dim_campaign dim_source))"

text \<open>
  A sample of draws for the fixed tables: every array has the size the program asks for
  and holds one value of its range throughout.
\<close>

definition sample_draws :: draws where
  "sample_draws =
     \<lparr> prog_imps = replicate (mask_sum (mask_prog df_fact)) 5000,
       prog_ctrs = replicate (mask_sum (mask_prog df_fact)) 0.005,
       prog_cpcs = replicate (mask_sum (mask_prog df_fact)) 0.5,
       search_imps = replicate (mask_sum (mask_search df_fact)) 1000,
       search_ctrs = replicate (mask_sum (mask_search df_fact)) 0.1,
       search_cpcs = replicate (mask_sum (mask_search df_fact)) 3,
       social_imps = replicate (mask_sum (mask_social df_fact)) 2000,
       social_ctrs = replicate (mask_sum (mask_social df_fact)) 0.025,
       social_cpcs = replicate (mask_sum (mask_social df_fact)) 2,
       org_imps = replicate (mask_sum (mask_org df_fact)) 1500,
       org_ctrs = replicate (mask_sum (mask_org df_fact)) 0.06,
       conv_rates = replicate (length df_fact) 0.1,
       video_var = replicate (mask_sum (mask_video df_fact)) 1 \<rparr>"

text \<open>Two sample rows of the merged table: one without traffic and one with.\<close>

definition sample_master :: "master_row list" where
  "sample_master =
     [\<lparr> mr_impressions = 0, mr_clicks = 0, mr_spend = 0, mr_conversions = 0 \<rparr>,
      \<lparr> mr_impressions = 3500, mr_clicks = 17, mr_spend = 8.5, mr_conversions = 1 \<rparr>]"

section \<open>Properties of the column operations\<close>

lemma length_mask_assign: "length (mask_assign xs ms vs) = length xs"
  by (induction xs ms vs rule: mask_assign.induct) simp_all

lemma mask_assign_all:
  "list_all P xs \<Longrightarrow> list_all P vs \<Longrightarrow> list_all P (mask_assign xs ms vs)"
  by (induction xs ms vs rule: mask_assign.induct) simp_all

lemma mask_sum_Cons: "mask_sum (m # ms) = (if m then Suc (mask_sum ms) else mask_sum ms)"
  by (simp add: mask_sum_def)

lemma mask_rank_0: "mask_rank ms 0 = 0"
  by (simp add: mask_rank_def mask_sum_def)

lemma mask_rank_Suc:
  "mask_rank (m # ms) (Suc i) = (if m then Suc (mask_rank ms i) else mask_rank ms i)"
  by (simp add: mask_rank_def mask_sum_def)

lemma mask_rank_less: "i < length ms \<Longrightarrow> ms ! i \<Longrightarrow> mask_rank ms i < mask_sum ms"
proof (induction ms arbitrary: i)
  case Nil
  then show ?case by simp
next
  case (Cons m ms)
  show ?case
  proof (cases i)
    case 0
    with Cons.prems show ?thesis by (simp add: mask_rank_0 mask_sum_Cons)
  next
    case (Suc j)
    with Cons.prems have "mask_rank ms j < mask_sum ms"
      by (intro Cons.IH) simp_all
    with Suc show ?thesis by (simp add: mask_rank_Suc mask_sum_Cons)
  qed
qed

lemma mask_assign_nth:
  "length ms = length xs \<Longrightarrow> mask_sum ms \<le> length vs \<Longrightarrow> i < length xs \<Longrightarrow>
   mask_assign xs ms vs ! i = (if ms ! i then vs ! mask_rank ms i else xs ! i)"
proof (induction xs ms vs arbitrary: i rule: mask_assign.induct)
  case (1 x xs ms v vs)
  then show ?case
    by (cases i) (simp_all add: mask_rank_0 mask_rank_Suc mask_sum_Cons)
next
  case (2 x xs ms vs)
  then show ?case
    by (cases i) (simp_all add: mask_rank_0 mask_rank_Suc mask_sum_Cons)
qed (simp_all add: mask_sum_Cons)

lemma length_mask_select:
  "length xs = length ms \<Longrightarrow> length (mask_select xs ms) = mask_sum ms"
proof (induction xs ms rule: list_induct2)
  case Nil
  then show ?case by (simp add: mask_select_def mask_sum_def)
next
  case (Cons x xs m ms)
  then show ?case by (simp add: mask_select_def mask_sum_def)
qed

lemma mask_select_Cons:
  "mask_select (x # xs) (m # ms) = (if m then x # mask_select xs ms else mask_select xs ms)"
  by (simp add: mask_select_def)

lemma mask_select_nth:
  "length xs = length ms \<Longrightarrow> i < length ms \<Longrightarrow> ms ! i \<Longrightarrow>
   mask_select xs ms ! mask_rank ms i = xs ! i"
proof (induction xs ms arbitrary: i rule: list_induct2)
  case Nil
  then show ?case by simp
next
  case (Cons x xs m ms)
  then show ?case
    by (cases i) (simp_all add: mask_select_Cons mask_rank_0 mask_rank_Suc)
qed

lemma length_mask_fill:
  "length ms = length xs \<Longrightarrow> length (mask_fill xs ms c) = length xs"
  by (simp add: mask_fill_def)

lemma mask_fill_nth:
  "length ms = length xs \<Longrightarrow> i < length xs \<Longrightarrow>
   mask_fill xs ms c ! i = (if ms ! i then c else xs ! i)"
  by (simp add: mask_fill_def)

lemma length_mask_scale:
  "length ms = length xs \<Longrightarrow> length (mask_scale xs ms c) = length xs"
  by (simp add: mask_scale_def)

lemma mask_scale_nth:
  "length ms = length xs \<Longrightarrow> i < length xs \<Longrightarrow>
   mask_scale xs ms c ! i = (if ms ! i then xs ! i * c else xs ! i)"
  by (simp add: mask_scale_def)


subsection \<open>Arithmetic of the conversions\<close>

lemma astype_int_nonneg: "0 \<le> x \<Longrightarrow> 0 \<le> astype_int x"
  by (simp add: astype_int_def)

lemma astype_int_fraction_le:
  assumes "0 \<le> n" "0 \<le> c" "c \<le> 1"
  shows "astype_int (of_int n * c) \<le> n"
proof -
  have "of_int n * c \<le> (of_int n :: real)"
    using assms by (simp add: mult_left_le)
  then have "\<lfloor>of_int n * c\<rfloor> \<le> n"
    by (simp add: floor_le_iff)
  moreover have "0 \<le> of_int n * c"
    using assms by simp
  ultimately show ?thesis
    by (simp add: astype_int_def)
qed

lemma astype_int_fraction_nonneg:
  "0 \<le> n \<Longrightarrow> 0 \<le> c \<Longrightarrow> 0 \<le> astype_int (of_int n * c)"
  by (simp add: astype_int_nonneg)

lemma rint_nonneg: "0 \<le> x \<Longrightarrow> 0 \<le> rint x"
proof -
  assume "0 \<le> x"
  then have "0 \<le> \<lfloor>x\<rfloor>" by simp
  then show ?thesis by (simp add: rint_def Let_def)
qed

lemma round2_nonneg: "0 \<le> x \<Longrightarrow> 0 \<le> round2 x"
  by (simp add: round2_def rint_nonneg)

lemma round2_zero: "round2 0 = 0"
  by (simp add: round2_def rint_def)

subsection \<open>Lengths of the columns\<close>

lemma length_base_imps: "length (base_imps df g) = length df"
  by (simp add: base_imps_def Let_def length_mask_assign)

lemma length_ctrs: "length (ctrs df g) = length df"
  by (simp add: ctrs_def Let_def length_mask_assign)

lemma length_cpcs_drawn: "length (cpcs_drawn df g) = length df"
  by (simp add: cpcs_drawn_def Let_def mask_fill_def mask_org_def length_mask_assign)

lemma length_cpcs: "length (cpcs df g) = length df"
  by (simp add: cpcs_def mask_scale_def mask_effic_def length_cpcs_drawn)

lemma length_seasonal_imps: "length (seasonal_imps df g) = length df"
  by (simp add: seasonal_imps_def seasonality_def length_base_imps)

lemma length_final_imps: "length (final_imps df g) = length df"
  by (simp add: final_imps_def mask_scale_def mask_spike_def length_seasonal_imps)

lemma length_impressions: "length (impressions df g) = length df"
  by (simp add: impressions_def length_final_imps)

lemma length_clicks: "length (clicks df g) = length df"
  by (simp add: clicks_def length_impressions length_ctrs)

lemma length_spend: "length (spend df g) = length df"
  by (simp add: spend_def length_clicks length_cpcs)

lemma length_video_views: "length (video_views df g) = length df"
  by (simp add: video_views_def length_mask_assign)

lemma length_fact_final: "length (fact_final df g) = length df"
  by (simp add: fact_final_def)

subsection \<open>The columns, row by row\<close>

lemma seasonal_imps_nth:
  "i < length df \<Longrightarrow>
   seasonal_imps df g ! i = base_imps df g ! i * (if sk_is_weekend (df ! i) then 0.7 else 1.1)"
  by (simp add: seasonal_imps_def seasonality_def length_base_imps)

lemma final_imps_nth:
  "i < length df \<Longrightarrow>
   final_imps df g ! i =
     (if sk_year (df ! i) = 2023 \<and> sk_month (df ! i) = 8
          \<and> sk_channel (df ! i) = ''Programmatic''
      then seasonal_imps df g ! i * 3 else seasonal_imps df g ! i)"
  by (simp add: final_imps_def mask_scale_nth mask_spike_def length_seasonal_imps)

lemma cpcs_nth:
  "i < length df \<Longrightarrow>
   cpcs df g ! i =
     (if sk_year (df ! i) = 2023 \<and> sk_month (df ! i) = 12
          \<and> sk_channel (df ! i) = ''Paid Search''
      then cpcs_drawn df g ! i * 0.7 else cpcs_drawn df g ! i)"
  by (simp add: cpcs_def mask_scale_nth mask_effic_def length_cpcs_drawn)

lemma impressions_nth:
  "i < length df \<Longrightarrow> impressions df g ! i = astype_int (final_imps df g ! i)"
  by (simp add: impressions_def length_final_imps)

lemma clicks_nth:
  "i < length df \<Longrightarrow>
   clicks df g ! i = astype_int (of_int (impressions df g ! i) * ctrs df g ! i)"
  by (simp add: clicks_def length_impressions length_ctrs)

lemma spend_nth:
  "i < length df \<Longrightarrow>
   spend df g ! i = round2 (of_int (clicks df g ! i) * cpcs df g ! i)"
  by (simp add: spend_def length_clicks length_cpcs)

lemma conversions_nth:
  "length (conv_rates g) = length df \<Longrightarrow> i < length df \<Longrightarrow>
   conversions df g ! i = astype_int (of_int (clicks df g ! i) * conv_rates g ! i)"
  by (simp add: conversions_def length_clicks)

lemma video_views_nth:
  assumes len: "length (video_var g) = mask_sum (mask_video df)" and i: "i < length df"
  shows "video_views df g ! i =
     (if sk_channel (df ! i) \<in> set [''Programmatic'', ''Paid Social'']
      then astype_int (of_int (impressions df g ! i) * 0.40
                        * video_var g ! mask_rank (mask_video df) i)
      else 0)"
proof -
  let ?ms = "mask_video df"
  let ?k = "mask_rank ?ms i"
  define sel where "sel = mask_select (impressions df g) ?ms"
  define vals where
    "vals = map astype_int (map2 (\<lambda>i v. of_int i * 0.40 * v) sel (video_var g))"
  have lms: "length ?ms = length df"
    by (simp add: mask_video_def)
  have lsel: "length sel = mask_sum ?ms"
    by (simp add: sel_def length_mask_select length_impressions lms)
  have lvals: "length vals = mask_sum ?ms"
    by (simp add: vals_def lsel len)
  have msi: "?ms ! i \<longleftrightarrow> sk_channel (df ! i) \<in> set [''Programmatic'', ''Paid Social'']"
    using i by (simp add: mask_video_def)
  have "video_views df g = mask_assign (replicate (length df) 0) ?ms vals"
    by (simp only: video_views_def vals_def sel_def)
  then have nth: "video_views df g ! i = (if ?ms ! i then vals ! ?k else 0)"
    using i lms lvals by (simp add: mask_assign_nth)
  show ?thesis
  proof (cases "?ms ! i")
    case True
    then have k: "?k < mask_sum ?ms"
      using i lms by (simp add: mask_rank_less)
    have seli: "sel ! ?k = impressions df g ! i"
      using True i lms by (simp add: sel_def mask_select_nth length_impressions)
    have "vals ! ?k = astype_int (of_int (sel ! ?k) * 0.40 * video_var g ! ?k)"
      using k lsel len by (simp add: vals_def)
    then have "video_views df g ! i =
        astype_int (of_int (impressions df g ! i) * 0.40 * video_var g ! ?k)"
      using nth True by (simp only: seli if_True)
    with True msi show ?thesis by (simp only: if_True)
  next
    case False
    with nth msi show ?thesis by (simp only: if_False)
  qed
qed


subsection \<open>Ranges of the drawn columns\<close>

lemma randint_ok_nonneg:
  "randint_ok low high n xs \<Longrightarrow> 0 \<le> low \<Longrightarrow> list_all (\<lambda>x. (0::real) \<le> x) (map of_int xs)"
  by (auto simp: randint_ok_def list_all_iff)

lemma uniform_ok_range:
  "uniform_ok low high n xs \<Longrightarrow> a \<le> low \<Longrightarrow> high \<le> b \<Longrightarrow>
   list_all (\<lambda>x. a \<le> x \<and> x \<le> b) xs"
  by (auto simp: uniform_ok_def list_all_iff)

lemma uniform_ok_nonneg:
  "uniform_ok low high n xs \<Longrightarrow> 0 \<le> low \<Longrightarrow> list_all (\<lambda>x. 0 \<le> x) xs"
  by (auto simp: uniform_ok_def list_all_iff)

lemma list_all_replicate: "P c \<Longrightarrow> list_all P (replicate n c)"
  by (simp add: list_all_iff)

lemma valid_drawsD:
  assumes "valid_draws df g"
  shows "randint_ok 5000 15000 (mask_sum (mask_prog df)) (prog_imps g)"
    and "uniform_ok 0.003 0.007 (mask_sum (mask_prog df)) (prog_ctrs g)"
    and "uniform_ok 0.30 0.90 (mask_sum (mask_prog df)) (prog_cpcs g)"
    and "randint_ok 300 1200 (mask_sum (mask_search df)) (search_imps g)"
    and "uniform_ok 0.08 0.12 (mask_sum (mask_search df)) (search_ctrs g)"
    and "uniform_ok 2.50 6.00 (mask_sum (mask_search df)) (search_cpcs g)"
    and "randint_ok 1000 4000 (mask_sum (mask_social df)) (social_imps g)"
    and "uniform_ok 0.015 0.035 (mask_sum (mask_social df)) (social_ctrs g)"
    and "uniform_ok 1.50 3.50 (mask_sum (mask_social df)) (social_cpcs g)"
    and "randint_ok 1000 3000 (mask_sum (mask_org df)) (org_imps g)"
    and "uniform_ok 0.05 0.08 (mask_sum (mask_org df)) (org_ctrs g)"
    and "uniform_ok 0.05 0.15 (length df) (conv_rates g)"
    and "uniform_ok 0.8 1.2 (mask_sum (mask_video df)) (video_var g)"
  using assms unfolding valid_draws_def mask_video_def by blast+

lemma base_imps_nonneg:
  assumes v: "valid_draws df g"
  shows "list_all (\<lambda>x. 0 \<le> x) (base_imps df g)"
proof -
  have "list_all (\<lambda>x. (0::real) \<le> x) (map of_int (prog_imps g))"
    by (rule randint_ok_nonneg[OF valid_drawsD(1)[OF v]]) simp
  moreover have "list_all (\<lambda>x. (0::real) \<le> x) (map of_int (search_imps g))"
    by (rule randint_ok_nonneg[OF valid_drawsD(4)[OF v]]) simp
  moreover have "list_all (\<lambda>x. (0::real) \<le> x) (map of_int (social_imps g))"
    by (rule randint_ok_nonneg[OF valid_drawsD(7)[OF v]]) simp
  moreover have "list_all (\<lambda>x. (0::real) \<le> x) (map of_int (org_imps g))"
    by (rule randint_ok_nonneg[OF valid_drawsD(10)[OF v]]) simp
  ultimately show ?thesis
    unfolding base_imps_def Let_def
    by (intro mask_assign_all list_all_replicate) simp_all
qed

lemma ctrs_unit:
  assumes v: "valid_draws df g"
  shows "list_all (\<lambda>x. 0 \<le> x \<and> x \<le> 1) (ctrs df g)"
proof -
  have "list_all (\<lambda>x. 0 \<le> x \<and> x \<le> 1) (prog_ctrs g)"
    by (rule uniform_ok_range[OF valid_drawsD(2)[OF v]]) simp_all
  moreover have "list_all (\<lambda>x. 0 \<le> x \<and> x \<le> 1) (search_ctrs g)"
    by (rule uniform_ok_range[OF valid_drawsD(5)[OF v]]) simp_all
  moreover have "list_all (\<lambda>x. 0 \<le> x \<and> x \<le> 1) (social_ctrs g)"
    by (rule uniform_ok_range[OF valid_drawsD(8)[OF v]]) simp_all
  moreover have "list_all (\<lambda>x. 0 \<le> x \<and> x \<le> 1) (org_ctrs g)"
    by (rule uniform_ok_range[OF valid_drawsD(11)[OF v]]) simp_all
  ultimately show ?thesis
    unfolding ctrs_def Let_def
    by (intro mask_assign_all list_all_replicate) simp_all
qed

lemma list_all_mask_fill:
  "list_all P xs \<Longrightarrow> P c \<Longrightarrow> list_all P (mask_fill xs ms c)"
  unfolding mask_fill_def list_all_iff
  by (auto dest: set_zip_leftD)

lemma cpcs_drawn_nonneg:
  assumes v: "valid_draws df g"
  shows "list_all (\<lambda>x. 0 \<le> x) (cpcs_drawn df g)"
proof -
  have "list_all (\<lambda>x. 0 \<le> x) (prog_cpcs g)"
    by (rule uniform_ok_nonneg[OF valid_drawsD(3)[OF v]]) simp
  moreover have "list_all (\<lambda>x. 0 \<le> x) (search_cpcs g)"
    by (rule uniform_ok_nonneg[OF valid_drawsD(6)[OF v]]) simp
  moreover have "list_all (\<lambda>x. 0 \<le> x) (social_cpcs g)"
    by (rule uniform_ok_nonneg[OF valid_drawsD(9)[OF v]]) simp
  ultimately show ?thesis
    unfolding cpcs_drawn_def Let_def
    by (intro list_all_mask_fill mask_assign_all list_all_replicate) simp_all
qed

lemma uniform_ok_nth:
  "uniform_ok low high n xs \<Longrightarrow> k < n \<Longrightarrow> low \<le> xs ! k \<and> xs ! k \<le> high"
  by (simp add: uniform_ok_def list_all_length)

lemma conv_rate_range:
  "valid_draws df g \<Longrightarrow> i < length df \<Longrightarrow>
   0.05 \<le> conv_rates g ! i \<and> conv_rates g ! i \<le> 0.15"
  by (rule uniform_ok_nth[OF valid_drawsD(12)])

lemma video_var_range:
  "valid_draws df g \<Longrightarrow> k < mask_sum (mask_video df) \<Longrightarrow>
   0.8 \<le> video_var g ! k \<and> video_var g ! k \<le> 1.2"
  by (rule uniform_ok_nth[OF valid_drawsD(13)])

lemma valid_draws_lengths:
  "valid_draws df g \<Longrightarrow>
   length (conv_rates g) = length df \<and> length (video_var g) = mask_sum (mask_video df)"
  using valid_drawsD(12)[of df g] valid_drawsD(13)[of df g]
  by (simp add: uniform_ok_def)

subsection \<open>Bounds on the metrics of a row\<close>

lemma impressions_nonneg:
  assumes v: "valid_draws df g" and i: "i < length df"
  shows "0 \<le> impressions df g ! i"
proof -
  have "0 \<le> base_imps df g ! i"
    using base_imps_nonneg[OF v] i by (simp add: list_all_length length_base_imps)
  then have "0 \<le> seasonal_imps df g ! i"
    using i by (simp add: seasonal_imps_nth)
  then have "0 \<le> final_imps df g ! i"
    using i by (simp add: final_imps_nth)
  then show ?thesis
    using i by (simp add: impressions_nth astype_int_nonneg)
qed

lemma ctrs_nth_unit:
  "valid_draws df g \<Longrightarrow> i < length df \<Longrightarrow> 0 \<le> ctrs df g ! i \<and> ctrs df g ! i \<le> 1"
  using ctrs_unit[of df g] by (simp add: list_all_length length_ctrs)

lemma cpcs_nth_nonneg:
  assumes v: "valid_draws df g" and i: "i < length df"
  shows "0 \<le> cpcs df g ! i"
proof -
  have "0 \<le> cpcs_drawn df g ! i"
    using cpcs_drawn_nonneg[OF v] i by (simp add: list_all_length length_cpcs_drawn)
  then show ?thesis
    using i by (simp add: cpcs_nth)
qed

lemma clicks_bounds:
  assumes v: "valid_draws df g" and i: "i < length df"
  shows "0 \<le> clicks df g ! i \<and> clicks df g ! i \<le> impressions df g ! i"
proof -
  have n: "0 \<le> impressions df g ! i"
    by (rule impressions_nonneg[OF v i])
  have c: "0 \<le> ctrs df g ! i" "ctrs df g ! i \<le> 1"
    using ctrs_nth_unit[OF v i] by simp_all
  show ?thesis
    unfolding clicks_nth[OF i]
    using astype_int_fraction_le[OF n c] astype_int_fraction_nonneg[OF n c(1)] by blast
qed

lemma spend_nonneg:
  assumes v: "valid_draws df g" and i: "i < length df"
  shows "0 \<le> spend df g ! i"
proof -
  have "0 \<le> of_int (clicks df g ! i) * cpcs df g ! i"
    using clicks_bounds[OF v i] cpcs_nth_nonneg[OF v i] by simp
  then show ?thesis
    unfolding spend_nth[OF i] by (rule round2_nonneg)
qed

lemma conversions_bounds:
  assumes v: "valid_draws df g" and i: "i < length df"
  shows "0 \<le> conversions df g ! i \<and> conversions df g ! i \<le> clicks df g ! i"
proof -
  have r: "0 \<le> conv_rates g ! i" "conv_rates g ! i \<le> 1"
    using conv_rate_range[OF v i] by simp_all
  have k: "0 \<le> clicks df g ! i"
    using clicks_bounds[OF v i] by simp
  have eq: "conversions df g ! i = astype_int (of_int (clicks df g ! i) * conv_rates g ! i)"
    using valid_draws_lengths[OF v] i by (simp add: conversions_nth)
  show ?thesis
    unfolding eq
    using astype_int_fraction_le[OF k r] astype_int_fraction_nonneg[OF k r(1)] by simp
qed

lemma video_views_bounds:
  assumes v: "valid_draws df g" and i: "i < length df"
  shows "0 \<le> video_views df g ! i \<and> video_views df g ! i \<le> impressions df g ! i"
proof (cases "sk_channel (df ! i) \<in> set [''Programmatic'', ''Paid Social'']")
  case True
  let ?k = "mask_rank (mask_video df) i"
  let ?n = "impressions df g ! i"
  have "mask_video df ! i"
    using True i by (simp add: mask_video_def)
  then have "?k < mask_sum (mask_video df)"
    using i by (simp add: mask_rank_less mask_video_def)
  then have r: "0.8 \<le> video_var g ! ?k \<and> video_var g ! ?k \<le> 1.2"
    by (rule video_var_range[OF v])
  have n: "0 \<le> ?n"
    by (rule impressions_nonneg[OF v i])
  have c: "0 \<le> 0.40 * video_var g ! ?k" "0.40 * video_var g ! ?k \<le> 1"
    using r by simp_all
  have eq: "video_views df g ! i = astype_int (of_int ?n * (0.40 * video_var g ! ?k))"
    using True valid_draws_lengths[OF v] i by (simp add: video_views_nth mult.assoc)
  show ?thesis
    unfolding eq
    using astype_int_fraction_le[OF n c] astype_int_fraction_nonneg[OF n c(1)] by blast
next
  case False
  then show ?thesis
    using valid_draws_lengths[OF v] i impressions_nonneg[OF v i]
    by (simp add: video_views_nth)
qed


subsection \<open>The draw behind each row\<close>

lemma mask_nth:
  "i < length df \<Longrightarrow> mask_prog df ! i = (sk_channel (df ! i) = ''Programmatic'')"
  "i < length df \<Longrightarrow> mask_search df ! i = (sk_channel (df ! i) = ''Paid Search'')"
  "i < length df \<Longrightarrow> mask_social df ! i = (sk_channel (df ! i) = ''Paid Social'')"
  "i < length df \<Longrightarrow> mask_org df ! i = (sk_channel (df ! i) = ''Organic'')"
  by (simp_all add: mask_prog_def mask_search_def mask_social_def mask_org_def)

lemma length_masks:
  "length (mask_prog df) = length df" "length (mask_search df) = length df"
  "length (mask_social df) = length df" "length (mask_org df) = length df"
  "length (mask_video df) = length df"
  by (simp_all add: mask_prog_def mask_search_def mask_social_def mask_org_def mask_video_def)

lemma four_assign_nth:
  assumes "length m1 = n" "length m2 = n" "length m3 = n" "length m4 = n"
    and "length v1 = mask_sum m1" "length v2 = mask_sum m2"
    and "length v3 = mask_sum m3" "length v4 = mask_sum m4"
    and "i < n"
  shows "mask_assign (mask_assign (mask_assign (mask_assign (replicate n z) m1 v1) m2 v2)
            m3 v3) m4 v4 ! i =
         (if m4 ! i then v4 ! mask_rank m4 i
          else if m3 ! i then v3 ! mask_rank m3 i
          else if m2 ! i then v2 ! mask_rank m2 i
          else if m1 ! i then v1 ! mask_rank m1 i
          else z)"
  using assms by (simp add: mask_assign_nth length_mask_assign)

lemma base_imps_nth:
  assumes v: "valid_draws df g" and i: "i < length df"
  shows "base_imps df g ! i =
     (if sk_channel (df ! i) = ''Programmatic''
        then of_int (prog_imps g ! mask_rank (mask_prog df) i)
      else if sk_channel (df ! i) = ''Paid Search''
        then of_int (search_imps g ! mask_rank (mask_search df) i)
      else if sk_channel (df ! i) = ''Paid Social''
        then of_int (social_imps g ! mask_rank (mask_social df) i)
      else if sk_channel (df ! i) = ''Organic''
        then of_int (org_imps g ! mask_rank (mask_org df) i)
      else 0)"
proof -
  have l: "length (prog_imps g) = mask_sum (mask_prog df)"
          "length (search_imps g) = mask_sum (mask_search df)"
          "length (social_imps g) = mask_sum (mask_social df)"
          "length (org_imps g) = mask_sum (mask_org df)"
    using valid_drawsD(1,4,7,10)[OF v] by (simp_all add: randint_ok_def)
  have r: "\<And>ms (xs :: int list). length ms = length df \<Longrightarrow> length xs = mask_sum ms \<Longrightarrow> ms ! i
           \<Longrightarrow> map of_int xs ! mask_rank ms i = (of_int (xs ! mask_rank ms i) :: real)"
    using i by (simp add: mask_rank_less)
  have "base_imps df g ! i =
     (if mask_org df ! i then map of_int (org_imps g) ! mask_rank (mask_org df) i
      else if mask_social df ! i then map of_int (social_imps g) ! mask_rank (mask_social df) i
      else if mask_search df ! i then map of_int (search_imps g) ! mask_rank (mask_search df) i
      else if mask_prog df ! i then map of_int (prog_imps g) ! mask_rank (mask_prog df) i
      else 0)"
    unfolding base_imps_def Let_def
    by (rule four_assign_nth) (simp_all add: length_masks l i)
  then show ?thesis
    using i by (auto simp: r length_masks l mask_nth)
qed

lemma ctrs_nth:
  assumes v: "valid_draws df g" and i: "i < length df"
  shows "ctrs df g ! i =
     (if sk_channel (df ! i) = ''Programmatic'' then prog_ctrs g ! mask_rank (mask_prog df) i
      else if sk_channel (df ! i) = ''Paid Search''
        then search_ctrs g ! mask_rank (mask_search df) i
      else if sk_channel (df ! i) = ''Paid Social''
        then social_ctrs g ! mask_rank (mask_social df) i
      else if sk_channel (df ! i) = ''Organic'' then org_ctrs g ! mask_rank (mask_org df) i
      else 0)"
proof -
  have l: "length (prog_ctrs g) = mask_sum (mask_prog df)"
          "length (search_ctrs g) = mask_sum (mask_search df)"
          "length (social_ctrs g) = mask_sum (mask_social df)"
          "length (org_ctrs g) = mask_sum (mask_org df)"
    using valid_drawsD(2,5,8,11)[OF v] by (simp_all add: uniform_ok_def)
  have "ctrs df g ! i =
     (if mask_org df ! i then org_ctrs g ! mask_rank (mask_org df) i
      else if mask_social df ! i then social_ctrs g ! mask_rank (mask_social df) i
      else if mask_search df ! i then search_ctrs g ! mask_rank (mask_search df) i
      else if mask_prog df ! i then prog_ctrs g ! mask_rank (mask_prog df) i
      else 0)"
    unfolding ctrs_def Let_def
    by (rule four_assign_nth) (simp_all add: length_masks l i)
  then show ?thesis
    using i by (auto simp: mask_nth)
qed

lemma cpcs_drawn_nth:
  assumes v: "valid_draws df g" and i: "i < length df"
  shows "cpcs_drawn df g ! i =
     (if sk_channel (df ! i) = ''Programmatic'' then prog_cpcs g ! mask_rank (mask_prog df) i
      else if sk_channel (df ! i) = ''Paid Search''
        then search_cpcs g ! mask_rank (mask_search df) i
      else if sk_channel (df ! i) = ''Paid Social''
        then social_cpcs g ! mask_rank (mask_social df) i
      else 0)"
proof -
  have l: "length (prog_cpcs g) = mask_sum (mask_prog df)"
          "length (search_cpcs g) = mask_sum (mask_search df)"
          "length (social_cpcs g) = mask_sum (mask_social df)"
    using valid_drawsD(3,6,9)[OF v] by (simp_all add: uniform_ok_def)
  have "cpcs_drawn df g ! i =
     (if mask_org df ! i then 0
      else if mask_social df ! i then social_cpcs g ! mask_rank (mask_social df) i
      else if mask_search df ! i then search_cpcs g ! mask_rank (mask_search df) i
      else if mask_prog df ! i then prog_cpcs g ! mask_rank (mask_prog df) i
      else 0)"
    unfolding cpcs_drawn_def Let_def
    using i by (simp add: mask_fill_nth mask_assign_nth length_mask_assign length_masks l)
  then show ?thesis
    using i by (auto simp: mask_nth)
qed

lemma cpcs_drawn_organic:
  assumes i: "i < length df" and o: "sk_channel (df ! i) = ''Organic''"
  shows "cpcs_drawn df g ! i = 0"
  unfolding cpcs_drawn_def Let_def
  using i o by (simp add: mask_fill_nth length_mask_assign length_masks mask_nth)

subsection \<open>The joins\<close>

lemma set_merge_on_channel:
  "set (merge_on_channel cs ss) =
     {\<lparr> lk_campaign = c, lk_source = s \<rparr> | c s.
        c \<in> set cs \<and> s \<in> set ss \<and> dc_channel_scope c = ds_channel s}"
  by (auto simp: merge_on_channel_def)

lemma set_merge_cross:
  "set (merge_cross ls ds) = {skel_of l d | l d. l \<in> set ls \<and> d \<in> set ds}"
  by (auto simp: merge_cross_def)

lemma length_merge_cross: "length (merge_cross ls ds) = length ls * length ds"
  by (induction ls) (simp_all add: merge_cross_def)

lemma length_merge_on_channel:
  "length (merge_on_channel cs ss) =
     length (filter (\<lambda>(c, s). dc_channel_scope c = ds_channel s) (List.product cs ss))"
proof (induction cs)
  case Nil
  then show ?case by (simp add: merge_on_channel_def)
next
  case (Cons c cs)
  have "length (filter (\<lambda>(c, s). dc_channel_scope c = ds_channel s) (map (Pair c) ss))
        = length (filter (\<lambda>s. dc_channel_scope c = ds_channel s) ss)"
    by (simp add: filter_map comp_def)
  with Cons show ?case
    by (simp add: merge_on_channel_def)
qed

lemma hd_merge_cross:
  "ls \<noteq> [] \<Longrightarrow> ds \<noteq> [] \<Longrightarrow> hd (merge_cross ls ds) = skel_of (hd ls) (hd ds)"
  by (cases ls; cases ds) (simp_all add: merge_cross_def)

lemma find_distinct_key:
  "distinct (map f xs) \<Longrightarrow> x \<in> set xs \<Longrightarrow> find (\<lambda>y. f y = f x) xs = Some x"
  by (induction xs) (auto simp: image_iff)

subsection \<open>The fixed tables\<close>

lemma dim_source_eval:
  "dim_source =
     [\<lparr>ds_source_id = 1, ds_source_name = ''Amazon Ad Server'', ds_channel = ''Programmatic''\<rparr>,
      \<lparr>ds_source_id = 2, ds_source_name = ''StackAdapt'', ds_channel = ''Programmatic''\<rparr>,
      \<lparr>ds_source_id = 3, ds_source_name = ''DV360'', ds_channel = ''Programmatic''\<rparr>,
      \<lparr>ds_source_id = 4, ds_source_name = ''Search Ads 360'', ds_channel = ''Paid Search''\<rparr>,
      \<lparr>ds_source_id = 5, ds_source_name = ''Bing Ads'', ds_channel = ''Paid Search''\<rparr>,
      \<lparr>ds_source_id = 6, ds_source_name = ''Facebook'', ds_channel = ''Paid Social''\<rparr>,
      \<lparr>ds_source_id = 7, ds_source_name = ''LinkedIn Ads'', ds_channel = ''Paid Social''\<rparr>,
      \<lparr>ds_source_id = 8, ds_source_name = ''Organic Search'', ds_channel = ''Organic''\<rparr>]"
  by (simp add: dim_source_def sources_data_def)

lemma dim_campaign_ids: "map dc_campaign_id dim_campaign = map int [1..<17]"
  by (simp add: dim_campaign_def campaign_config_def upt_rec)

lemma dim_campaign_scopes:
  "map dc_channel_scope dim_campaign =
     replicate 6 ''Programmatic'' @ replicate 4 ''Paid Social''
       @ replicate 4 ''Paid Search'' @ replicate 2 ''Organic''"
  by (simp add: dim_campaign_def campaign_config_def numeral_eq_Suc)

lemma distinct_campaign_ids: "distinct (map dc_campaign_id dim_campaign)"
  by (simp add: dim_campaign_ids distinct_map inj_on_def)

lemma distinct_source_ids: "distinct (map ds_source_id dim_source)"
  by (simp add: dim_source_eval)

lemma length_schema_link: "length schema_link = 36"
  by (simp add: schema_link_def merge_on_channel_def dim_campaign_def campaign_config_def
        dim_source_eval)

lemma length_dim_date: "length dim_date = 456"
  by (simp add: dim_date_def dates_def)

lemma length_df_fact: "length df_fact = 16416"
  by (simp add: df_fact_def length_merge_cross length_schema_link length_dim_date)

lemma valid_sample_draws: "valid_draws df_fact sample_draws"
  by (simp add: valid_draws_def sample_draws_def randint_ok_def uniform_ok_def
        list_all_length mask_video_def)

lemma nth_merge_cross:
  "j < length ls \<Longrightarrow> i < length ds \<Longrightarrow>
   merge_cross ls ds ! (j * length ds + i) = skel_of (ls ! j) (ds ! i)"
proof (induction ls arbitrary: j)
  case Nil
  then show ?case by simp
next
  case (Cons l ls)
  have unfold: "merge_cross (l # ls) ds = map (skel_of l) ds @ merge_cross ls ds"
    by (simp add: merge_cross_def)
  show ?case
  proof (cases j)
    case 0
    with Cons.prems show ?thesis by (simp add: unfold nth_append)
  next
    case (Suc k)
    with Cons.prems have "merge_cross ls ds ! (k * length ds + i) = skel_of (ls ! k) (ds ! i)"
      by (intro Cons.IH) simp_all
    with Suc show ?thesis by (simp add: unfold nth_append add.assoc)
  qed
qed

lemma dim_date_nth: "i < 456 \<Longrightarrow> dim_date ! i = dim_date_of (add_days start_date (int i))"
  by (simp add: dim_date_def dates_def)

lemmas calendar_defs = add_days_def start_date_def ymd2ord_def ord2ymd_def days_before_year_def
  days_before_month_def DAYS_BEFORE_MONTH_def DAYS_IN_MONTH_def is_leap_def DI400Y_def
  DI100Y_def DI4Y_def Let_def

lemma sample_dates:
  "add_days start_date 0 = (2023, 1, 1)"
  "add_days start_date 212 = (2023, 8, 1)"
  "add_days start_date 334 = (2023, 12, 1)"
  "add_days start_date 455 = (2024, 3, 31)"
  by (simp_all add: calendar_defs)

lemma df_fact_nth:
  "j < 36 \<Longrightarrow> i < 456 \<Longrightarrow> df_fact ! (j * 456 + i) = skel_of (schema_link ! j) (dim_date ! i)"
  using nth_merge_cross[of j schema_link i dim_date]
  by (simp add: df_fact_def length_schema_link length_dim_date)

lemma schema_link_samples:
  "schema_link ! 0 = \<lparr> lk_campaign = dim_campaign ! 0, lk_source = dim_source ! 0 \<rparr>"
  "schema_link ! 26 = \<lparr> lk_campaign = dim_campaign ! 10, lk_source = dim_source ! 3 \<rparr>"
  "schema_link ! 34 = \<lparr> lk_campaign = dim_campaign ! 14, lk_source = dim_source ! 7 \<rparr>"
  by (simp_all add: schema_link_def merge_on_channel_def dim_campaign_def campaign_config_def
        dim_source_eval)

lemma df_fact_0:
  "df_fact ! 0 =
     \<lparr> sk_campaign_id = 1, sk_campaign_name = ''Business-focused zero tolerance'',
       sk_ad_set_name = ''Business-focused zero tolerance_Tier1'',
       sk_channel_scope = ''Programmatic'', sk_objective = ''Brand Awareness'',
       sk_source_id = 1, sk_source_name = ''Amazon Ad Server'', sk_channel = ''Programmatic'',
       sk_date_key = 20230101, sk_is_weekend = True, sk_year = 2023, sk_month = 1 \<rparr>"
  using df_fact_nth[of 0 0]
  by (simp add: schema_link_samples dim_date_nth sample_dates skel_of_def dim_date_of_def
        dim_campaign_def campaign_config_def dim_source_eval date_key_of_def dayofweek_def
        ymd2ord_def days_before_year_def days_before_month_def DAYS_BEFORE_MONTH_def is_leap_def)



lemma df_fact_15504:
  "df_fact ! 15504 =
     \<lparr> sk_campaign_id = 15, sk_campaign_name = ''Cross-platform static hierarchy'',
       sk_ad_set_name = ''Cross-platform static hierarchy_Tier1'',
       sk_channel_scope = ''Organic'', sk_objective = ''Traffic'',
       sk_source_id = 8, sk_source_name = ''Organic Search'', sk_channel = ''Organic'',
       sk_date_key = 20230101, sk_is_weekend = True, sk_year = 2023, sk_month = 1 \<rparr>"
  using df_fact_nth[of 34 0]
  by (simp add: schema_link_samples dim_date_nth sample_dates skel_of_def dim_date_of_def
        dim_campaign_def campaign_config_def dim_source_eval date_key_of_def dayofweek_def
        ymd2ord_def days_before_year_def days_before_month_def DAYS_BEFORE_MONTH_def is_leap_def)

subsection \<open>Rows of the exported fact table\<close>

lemma out_fact_performance_eq:
  "out_fact_performance (generate_marketing_star_schema g) = fact_final df_fact g"
  by (simp add: generate_marketing_star_schema_def)

lemma fact_final_nth:
  "i < length df \<Longrightarrow>
   fact_final df g ! i =
     \<lparr> fr_date_key = sk_date_key (df ! i),
       fr_source_id = sk_source_id (df ! i),
       fr_campaign_id = sk_campaign_id (df ! i),
       fr_impressions = impressions df g ! i,
       fr_clicks = clicks df g ! i,
       fr_spend = spend df g ! i,
       fr_conversions = conversions df g ! i,
       fr_video_views = video_views df g ! i \<rparr>"
  by (simp add: fact_final_def)

lemma in_set_fact_final:
  assumes "r \<in> set (fact_final df g)"
  obtains i where "i < length df" and "r = fact_final df g ! i"
  using assms by (auto simp: in_set_conv_nth length_fact_final)

lemma df_fact_row:
  assumes "i < length df_fact"
  obtains c s d where "c \<in> set dim_campaign" and "s \<in> set dim_source" and "d \<in> set dim_date"
    and "dc_channel_scope c = ds_channel s"
    and "df_fact ! i = skel_of \<lparr> lk_campaign = c, lk_source = s \<rparr> d"
proof -
  have "df_fact ! i \<in> set (merge_cross schema_link dim_date)"
    using assms by (simp add: df_fact_def[symmetric])
  then obtain l d where l: "l \<in> set schema_link" and d: "d \<in> set dim_date"
    and eq: "df_fact ! i = skel_of l d"
    by (auto simp: set_merge_cross)
  from l obtain c s where "c \<in> set dim_campaign" "s \<in> set dim_source"
    "dc_channel_scope c = ds_channel s" "l = \<lparr> lk_campaign = c, lk_source = s \<rparr>"
    by (auto simp: schema_link_def set_merge_on_channel)
  with d eq that show thesis by blast
qed

subsection \<open>The sample draws, evaluated\<close>

lemma sample_draws_nth:
  "k < mask_sum (mask_prog df_fact) \<Longrightarrow> prog_imps sample_draws ! k = 5000"
  "k < mask_sum (mask_prog df_fact) \<Longrightarrow> prog_ctrs sample_draws ! k = 0.005"
  "k < mask_sum (mask_prog df_fact) \<Longrightarrow> prog_cpcs sample_draws ! k = 0.5"
  "k < mask_sum (mask_search df_fact) \<Longrightarrow> search_imps sample_draws ! k = 1000"
  "k < mask_sum (mask_search df_fact) \<Longrightarrow> search_ctrs sample_draws ! k = 0.1"
  "k < mask_sum (mask_search df_fact) \<Longrightarrow> search_cpcs sample_draws ! k = 3"
  "k < mask_sum (mask_org df_fact) \<Longrightarrow> org_imps sample_draws ! k = 1500"
  "k < mask_sum (mask_org df_fact) \<Longrightarrow> org_ctrs sample_draws ! k = 0.06"
  "k < length df_fact \<Longrightarrow> conv_rates sample_draws ! k = 0.1"
  "k < mask_sum (mask_video df_fact) \<Longrightarrow> video_var sample_draws ! k = 1"
  by (simp_all add: sample_draws_def)

lemma rank_less:
  "i < length df \<Longrightarrow> sk_channel (df ! i) = ''Programmatic''
     \<Longrightarrow> mask_rank (mask_prog df) i < mask_sum (mask_prog df)"
  "i < length df \<Longrightarrow> sk_channel (df ! i) = ''Paid Search''
     \<Longrightarrow> mask_rank (mask_search df) i < mask_sum (mask_search df)"
  "i < length df \<Longrightarrow> sk_channel (df ! i) = ''Paid Social''
     \<Longrightarrow> mask_rank (mask_social df) i < mask_sum (mask_social df)"
  "i < length df \<Longrightarrow> sk_channel (df ! i) = ''Organic''
     \<Longrightarrow> mask_rank (mask_org df) i < mask_sum (mask_org df)"
  "i < length df \<Longrightarrow> sk_channel (df ! i) \<in> set [''Programmatic'', ''Paid Social'']
     \<Longrightarrow> mask_rank (mask_video df) i < mask_sum (mask_video df)"
  by (simp_all add: mask_rank_less length_masks mask_nth mask_video_def)

lemma astype_int_of_int: "astype_int (of_int n) = n"
  by (simp add: astype_int_def)

lemma sample_impressions_0: "impressions df_fact sample_draws ! 0 = 3500"
proof -
  have i: "0 < length df_fact" by (simp add: length_df_fact)
  have ch: "sk_channel (df_fact ! 0) = ''Programmatic''" by (simp add: df_fact_0)
  have "base_imps df_fact sample_draws ! 0 = 5000"
    using rank_less(1)[OF i ch]
    by (simp add: base_imps_nth[OF valid_sample_draws i] ch sample_draws_nth)
  then have "final_imps df_fact sample_draws ! 0 = 3500"
    by (simp add: final_imps_nth[OF i] seasonal_imps_nth[OF i] df_fact_0)
  then show ?thesis
    using astype_int_of_int[of 3500] by (simp add: impressions_nth[OF i])
qed

lemma sample_ctrs_0: "ctrs df_fact sample_draws ! 0 = 0.005"
proof -
  have i: "0 < length df_fact" by (simp add: length_df_fact)
  have ch: "sk_channel (df_fact ! 0) = ''Programmatic''" by (simp add: df_fact_0)
  show ?thesis
    using rank_less(1)[OF i ch]
    by (simp add: ctrs_nth[OF valid_sample_draws i] ch sample_draws_nth)
qed

lemma sample_clicks_0: "clicks df_fact sample_draws ! 0 = 17"
proof -
  have i: "0 < length df_fact" by (simp add: length_df_fact)
  have "astype_int (35 / 2) = 17" by (simp add: astype_int_def)
  then show ?thesis
    by (simp add: clicks_nth[OF i] sample_impressions_0 sample_ctrs_0)
qed

lemma sample_cpcs_0: "cpcs df_fact sample_draws ! 0 = 0.5"
proof -
  have i: "0 < length df_fact" by (simp add: length_df_fact)
  have ch: "sk_channel (df_fact ! 0) = ''Programmatic''" by (simp add: df_fact_0)
  show ?thesis
    using rank_less(1)[OF i ch]
    by (simp add: cpcs_nth[OF i] cpcs_drawn_nth[OF valid_sample_draws i] ch sample_draws_nth)
qed

lemma sample_spend_0: "spend df_fact sample_draws ! 0 = 8.5"
proof -
  have i: "0 < length df_fact" by (simp add: length_df_fact)
  have "round2 (17 / 2) = 17 / 2" by (simp add: round2_def rint_def)
  then show ?thesis
    by (simp add: spend_nth[OF i] sample_clicks_0 sample_cpcs_0)
qed

lemma sample_conversions_0: "conversions df_fact sample_draws ! 0 = 1"
proof -
  have i: "0 < length df_fact" by (simp add: length_df_fact)
  have l: "length (conv_rates sample_draws) = length df_fact"
    by (simp add: sample_draws_def)
  have "astype_int (17 / 10) = 1" by (simp add: astype_int_def)
  then show ?thesis
    using i by (simp add: conversions_nth[OF l i] sample_clicks_0 sample_draws_nth)
qed

lemma sample_video_views_0: "video_views df_fact sample_draws ! 0 = 1400"
proof -
  have i: "0 < length df_fact" by (simp add: length_df_fact)
  have ch: "sk_channel (df_fact ! 0) \<in> set [''Programmatic'', ''Paid Social'']"
    by (simp add: df_fact_0)
  have l: "length (video_var sample_draws) = mask_sum (mask_video df_fact)"
    by (simp add: sample_draws_def)
  have "video_views df_fact sample_draws ! 0 =
      astype_int (of_int (impressions df_fact sample_draws ! 0) * 0.40
        * video_var sample_draws ! mask_rank (mask_video df_fact) 0)"
    using ch by (simp only: video_views_nth[OF l i] if_True)
  also have "\<dots> = astype_int (of_int 1400)"
    using rank_less(5)[OF i ch] by (simp add: sample_impressions_0 sample_draws_nth)
  finally show ?thesis by (simp only: astype_int_of_int)
qed

lemma sample_row_0:
  "out_fact_performance (generate_marketing_star_schema sample_draws) ! 0 =
     \<lparr> fr_date_key = 20230101, fr_source_id = 1, fr_campaign_id = 1,
       fr_impressions = 3500, fr_clicks = 17, fr_spend = 8.5,
       fr_conversions = 1, fr_video_views = 1400 \<rparr>"
  by (simp add: out_fact_performance_eq fact_final_nth length_df_fact df_fact_0
        sample_impressions_0 sample_clicks_0 sample_spend_0 sample_conversions_0
        sample_video_views_0)

lemma sample_row_0_mem:
  "out_fact_performance (generate_marketing_star_schema sample_draws) ! 0
     \<in> set (out_fact_performance (generate_marketing_star_schema sample_draws))"
  by (simp add: out_fact_performance_eq length_fact_final length_df_fact)

section \<open>The claims\<close>

text \<open>
  Claim C1. For every row of the generated fact table, impressions are at least 0,
  clicks are at most impressions, spend is at least 0 and conversions are at most clicks,
  whatever the draws.
\<close>

theorem fact_metric_bounds:
  assumes v: "valid_draws df_fact g"
    and r: "r \<in> set (out_fact_performance (generate_marketing_star_schema g))"
  shows "0 \<le> fr_impressions r \<and> fr_clicks r \<le> fr_impressions r
         \<and> 0 \<le> fr_spend r \<and> fr_conversions r \<le> fr_clicks r"
proof -
  from r obtain i where i: "i < length df_fact" and eq: "r = fact_final df_fact g ! i"
    unfolding out_fact_performance_eq by (rule in_set_fact_final)
  have "0 \<le> impressions df_fact g ! i"
    by (rule impressions_nonneg[OF v i])
  moreover have "clicks df_fact g ! i \<le> impressions df_fact g ! i"
    using clicks_bounds[OF v i] by simp
  moreover have "0 \<le> spend df_fact g ! i"
    by (rule spend_nonneg[OF v i])
  moreover have "conversions df_fact g ! i \<le> clicks df_fact g ! i"
    using conversions_bounds[OF v i] by simp
  ultimately show ?thesis
    by (simp add: eq fact_final_nth[OF i])
qed

theorem fact_metric_bounds_witness:
  "valid_draws df_fact sample_draws
   \<and> fr_impressions (out_fact_performance (generate_marketing_star_schema sample_draws) ! 0) = 3500
   \<and> fr_clicks (out_fact_performance (generate_marketing_star_schema sample_draws) ! 0) = 17
   \<and> fr_clicks (out_fact_performance (generate_marketing_star_schema sample_draws) ! 0)
       \<le> fr_impressions (out_fact_performance (generate_marketing_star_schema sample_draws) ! 0)
   \<and> 0 \<le> fr_spend (out_fact_performance (generate_marketing_star_schema sample_draws) ! 0)
   \<and> fr_conversions (out_fact_performance (generate_marketing_star_schema sample_draws) ! 0)
       \<le> fr_clicks (out_fact_performance (generate_marketing_star_schema sample_draws) ! 0)"
  using fact_metric_bounds[OF valid_sample_draws sample_row_0_mem] valid_sample_draws
  by (simp add: sample_row_0)

text \<open>
  Claim C2. Referential integrity: the campaign id, the source id and the date key of
  every row of the generated fact table occur in the exported campaign, source and date
  dimensions.
\<close>

theorem referential_integrity:
  assumes r: "r \<in> set (out_fact_performance (generate_marketing_star_schema g))"
  shows "fr_campaign_id r
           \<in> set (map cf_campaign_id (out_dim_campaign (generate_marketing_star_schema g)))
         \<and> fr_source_id r
           \<in> set (map ds_source_id (out_dim_source (generate_marketing_star_schema g)))
         \<and> fr_date_key r
           \<in> set (map dd_date_key (out_dim_date (generate_marketing_star_schema g)))"
proof -
  from r obtain i where i: "i < length df_fact" and eq: "r = fact_final df_fact g ! i"
    unfolding out_fact_performance_eq by (rule in_set_fact_final)
  from i obtain c s d where c: "c \<in> set dim_campaign" and s: "s \<in> set dim_source"
    and d: "d \<in> set dim_date"
    and row: "df_fact ! i = skel_of \<lparr> lk_campaign = c, lk_source = s \<rparr> d"
    by (rule df_fact_row)
  have "fr_campaign_id r = dc_campaign_id c" "fr_source_id r = ds_source_id s"
       "fr_date_key r = dd_date_key d"
    by (simp_all add: eq fact_final_nth[OF i] row skel_of_def)
  with c s d show ?thesis
    by (simp add: generate_marketing_star_schema_def dim_campaign_final_def comp_def image_iff)
       blast
qed

theorem referential_integrity_witness:
  "fr_campaign_id (out_fact_performance (generate_marketing_star_schema sample_draws) ! 0) = 1
   \<and> (1::int) \<in> set (map cf_campaign_id
                        (out_dim_campaign (generate_marketing_star_schema sample_draws)))
   \<and> fr_source_id (out_fact_performance (generate_marketing_star_schema sample_draws) ! 0) = 1
   \<and> (1::int) \<in> set (map ds_source_id
                        (out_dim_source (generate_marketing_star_schema sample_draws)))
   \<and> fr_date_key (out_fact_performance (generate_marketing_star_schema sample_draws) ! 0)
       = 20230101
   \<and> (20230101::int) \<in> set (map dd_date_key
                        (out_dim_date (generate_marketing_star_schema sample_draws)))"
  using referential_integrity[OF sample_row_0_mem]
  by (simp add: sample_row_0)

text \<open>
  Claim C3. Channel consistency: for every row of the generated fact table, the channel of
  the source with the row's source id is the channel scope of the campaign with the row's
  campaign id.
\<close>

theorem channel_consistency:
  assumes r: "r \<in> set (out_fact_performance (generate_marketing_star_schema g))"
  shows "\<exists>ch. source_channel (fr_source_id r) = Some ch
              \<and> campaign_channel_scope (fr_campaign_id r) = Some ch"
proof -
  from r obtain i where i: "i < length df_fact" and eq: "r = fact_final df_fact g ! i"
    unfolding out_fact_performance_eq by (rule in_set_fact_final)
  from i obtain c s d where c: "c \<in> set dim_campaign" and s: "s \<in> set dim_source"
    and ch: "dc_channel_scope c = ds_channel s"
    and row: "df_fact ! i = skel_of \<lparr> lk_campaign = c, lk_source = s \<rparr> d"
    by (rule df_fact_row)
  have ids: "fr_campaign_id r = dc_campaign_id c" "fr_source_id r = ds_source_id s"
    by (simp_all add: eq fact_final_nth[OF i] row skel_of_def)
  have "find (\<lambda>y. ds_source_id y = ds_source_id s) dim_source = Some s"
    by (rule find_distinct_key[OF distinct_source_ids s])
  then have "source_channel (fr_source_id r) = Some (ds_channel s)"
    by (simp add: source_channel_def ids)
  moreover have "find (\<lambda>y. dc_campaign_id y = dc_campaign_id c) dim_campaign = Some c"
    by (rule find_distinct_key[OF distinct_campaign_ids c])
  then have "campaign_channel_scope (fr_campaign_id r) = Some (ds_channel s)"
    by (simp add: campaign_channel_scope_def ids ch)
  ultimately show ?thesis by blast
qed

theorem channel_consistency_witness:
  "source_channel (fr_source_id
       (out_fact_performance (generate_marketing_star_schema sample_draws) ! 0))
     = Some ''Programmatic''
   \<and> campaign_channel_scope (fr_campaign_id
       (out_fact_performance (generate_marketing_star_schema sample_draws) ! 0))
     = Some ''Programmatic''"
proof -
  have "source_channel 1 = Some ''Programmatic''"
    by (simp add: source_channel_def dim_source_eval)
  then show ?thesis
    using channel_consistency[OF sample_row_0_mem]
    by (auto simp: sample_row_0)
qed

lemma pairs_sharing_channel_eq: "pairs_sharing_channel = length schema_link"
  by (simp add: pairs_sharing_channel_def schema_link_def length_merge_on_channel)

text \<open>
  Claim C4, as amended. The number of rows of the generated fact table is the number of
  pairs of a campaign row and a source row sharing a channel, times the number of dates;
  for the fixed tables these are 36 pairs and 456 dates, that is 36 * 456 = 16416 rows.
\<close>

theorem fact_row_count:
  "length (out_fact_performance (generate_marketing_star_schema g))
     = pairs_sharing_channel * length (out_dim_date (generate_marketing_star_schema g))
   \<and> pairs_sharing_channel = 36
   \<and> length (out_dim_date (generate_marketing_star_schema g)) = 456
   \<and> length (out_fact_performance (generate_marketing_star_schema g)) = 36 * 456"
  by (simp add: out_fact_performance_eq length_fact_final length_df_fact
        pairs_sharing_channel_eq length_schema_link generate_marketing_star_schema_def
        length_dim_date)

theorem fact_row_count_witness:
  "length (out_fact_performance (generate_marketing_star_schema sample_draws)) = 16416"
  using fact_row_count[of sample_draws] by simp

text \<open>
  Claim C4 as stated gives 16 * 456 rows for the fixed tables: the generated table has
  a different number of rows.
\<close>

theorem fact_row_count_counterexample:
  "length (out_fact_performance (generate_marketing_star_schema sample_draws)) \<noteq> 16 * 456"
  by (simp add: out_fact_performance_eq length_fact_final length_df_fact)

text \<open>
  Claim C9. Organic has zero cost: for every row whose channel is Organic the cost per
  click is 0 and the spend is 0, for all draws.
\<close>

theorem organic_zero_cost:
  assumes i: "i < length df_fact" and o: "sk_channel (df_fact ! i) = ''Organic''"
  shows "cpcs df_fact g ! i = 0
         \<and> fr_spend (out_fact_performance (generate_marketing_star_schema g) ! i) = 0"
proof -
  have "cpcs df_fact g ! i = 0"
    using o by (simp add: cpcs_nth[OF i] cpcs_drawn_organic[OF i o])
  then show ?thesis
    by (simp add: out_fact_performance_eq fact_final_nth[OF i] spend_nth[OF i] round2_zero)
qed

theorem organic_zero_cost_witness:
  "15504 < length df_fact \<and> sk_channel (df_fact ! 15504) = ''Organic''
   \<and> sk_source_id (df_fact ! 15504) = 8
   \<and> cpcs df_fact sample_draws ! 15504 = 0
   \<and> fr_spend (out_fact_performance (generate_marketing_star_schema sample_draws) ! 15504) = 0"
proof -
  have i: "15504 < length df_fact" by (simp add: length_df_fact)
  have o: "sk_channel (df_fact ! 15504) = ''Organic''" by (simp add: df_fact_15504)
  show ?thesis
    using organic_zero_cost[OF i o, of sample_draws] i o by (simp add: df_fact_15504)
qed

text \<open>
  Claim C10. For every row of the generated fact table and all draws, video views lie
  between 0 and the impressions of the row.
\<close>

theorem video_views_bounded:
  assumes v: "valid_draws df_fact g"
    and r: "r \<in> set (out_fact_performance (generate_marketing_star_schema g))"
  shows "0 \<le> fr_video_views r \<and> fr_video_views r \<le> fr_impressions r"
proof -
  from r obtain i where i: "i < length df_fact" and eq: "r = fact_final df_fact g ! i"
    unfolding out_fact_performance_eq by (rule in_set_fact_final)
  show ?thesis
    using video_views_bounds[OF v i] by (simp add: eq fact_final_nth[OF i])
qed

theorem video_views_bounded_witness:
  "valid_draws df_fact sample_draws
   \<and> fr_video_views (out_fact_performance (generate_marketing_star_schema sample_draws) ! 0)
       = 1400
   \<and> 0 \<le> fr_video_views (out_fact_performance (generate_marketing_star_schema sample_draws) ! 0)
   \<and> fr_video_views (out_fact_performance (generate_marketing_star_schema sample_draws) ! 0)
       \<le> fr_impressions (out_fact_performance (generate_marketing_star_schema sample_draws) ! 0)"
  using video_views_bounded[OF valid_sample_draws sample_row_0_mem] valid_sample_draws
  by (simp add: sample_row_0)

subsection \<open>The date dimension\<close>













subsection \<open>The enrichment stage\<close>

lemma CPM_eq:
  "CPM r = Fin (if mr_impressions r > 0
                then mr_spend r / of_int (mr_impressions r) * 1000 else 0)"
  by (simp add: CPM_def np_where_def fdiv_def)

lemma CTR_eq:
  "CTR r = Fin (if mr_impressions r > 0
                then of_int (mr_clicks r) / of_int (mr_impressions r) * 100 else 0)"
  by (simp add: CTR_def np_where_def fdiv_def)

lemma CPC_eq:
  "CPC r = Fin (if mr_clicks r > 0 then mr_spend r / of_int (mr_clicks r) else 0)"
  by (simp add: CPC_def np_where_def fdiv_def)

lemma Conversion_Rate_eq:
  "Conversion_Rate r = Fin (if mr_clicks r > 0
                then of_int (mr_conversions r) / of_int (mr_clicks r) * 100 else 0)"
  by (simp add: Conversion_Rate_def np_where_def fdiv_def)

text \<open>
  Claim C6. In the enrichment stage every one of the four indicators of every row is a
  finite number, never an infinity or the not-a-number value: CPM is spend / impressions
  * 1000 and CTR is clicks / impressions * 100 when impressions are positive, CPC is
  spend / clicks and the conversion rate is conversions / clicks * 100 when clicks are
  positive, and each is 0 otherwise, in particular when its denominator is 0.
\<close>

theorem kpi_guarded:
  assumes "(r, k) \<in> set (enrich df_master)"
  shows "kr_CPM k = Fin (if mr_impressions r > 0
                         then mr_spend r / of_int (mr_impressions r) * 1000 else 0)
       \<and> kr_CTR k = Fin (if mr_impressions r > 0
                         then of_int (mr_clicks r) / of_int (mr_impressions r) * 100 else 0)
       \<and> kr_CPC k = Fin (if mr_clicks r > 0
                         then mr_spend r / of_int (mr_clicks r) else 0)
       \<and> kr_Conversion_Rate k = Fin (if mr_clicks r > 0
                         then of_int (mr_conversions r) / of_int (mr_clicks r) * 100 else 0)"
proof -
  from assms have k: "k = \<lparr> kr_CPM = CPM r, kr_CTR = CTR r, kr_CPC = CPC r,
                           kr_Conversion_Rate = Conversion_Rate r \<rparr>"
    by (auto simp: enrich_def)
  show ?thesis
    unfolding k by (simp only: kpi_row.simps CPM_eq CTR_eq CPC_eq Conversion_Rate_eq simp_thms)
qed


theorem kpi_guarded_witness:
  "map snd (enrich sample_master) =
     [\<lparr> kr_CPM = Fin 0, kr_CTR = Fin 0, kr_CPC = Fin 0, kr_Conversion_Rate = Fin 0 \<rparr>,
      \<lparr> kr_CPM = Fin (17 / 7), kr_CTR = Fin (17 / 35), kr_CPC = Fin (1 / 2),
         kr_Conversion_Rate = Fin (100 / 17) \<rparr>]"
proof -
  define r0 where "r0 = \<lparr> mr_impressions = 0, mr_clicks = 0, mr_spend = 0, mr_conversions = 0 \<rparr>"
  define r1 where
    "r1 = \<lparr> mr_impressions = 3500, mr_clicks = 17, mr_spend = 8.5, mr_conversions = 1 \<rparr>"
  define k0 where "k0 = snd (enrich sample_master ! 0)"
  define k1 where "k1 = snd (enrich sample_master ! 1)"
  have e: "enrich sample_master = [(r0, k0), (r1, k1)]"
    by (simp add: enrich_def sample_master_def r0_def r1_def k0_def k1_def)
  have m0: "(r0, k0) \<in> set (enrich sample_master)" and m1: "(r1, k1) \<in> set (enrich sample_master)"
    unfolding e by simp_all
  have f0: "mr_impressions r0 = 0" "mr_clicks r0 = 0"
    by (simp_all add: r0_def)
  have f1: "mr_impressions r1 = 3500" "mr_clicks r1 = 17" "mr_spend r1 = 17 / 2"
    "mr_conversions r1 = 1"
    by (simp_all add: r1_def)
  have v0: "kr_CPM k0 = Fin 0" "kr_CTR k0 = Fin 0" "kr_CPC k0 = Fin 0"
    "kr_Conversion_Rate k0 = Fin 0"
    using kpi_guarded[OF m0] by (simp_all add: f0)
  have v1: "kr_CPM k1 = Fin (17 / 7)" "kr_CTR k1 = Fin (17 / 35)" "kr_CPC k1 = Fin (1 / 2)"
    "kr_Conversion_Rate k1 = Fin (100 / 17)"
    using kpi_guarded[OF m1] by (simp_all add: f1)
  have "k0 = \<lparr> kr_CPM = Fin 0, kr_CTR = Fin 0, kr_CPC = Fin 0, kr_Conversion_Rate = Fin 0 \<rparr>"
    by (rule kpi_row.equality) (simp_all add: v0)
  moreover have "k1 = \<lparr> kr_CPM = Fin (17 / 7), kr_CTR = Fin (17 / 35), kr_CPC = Fin (1 / 2),
         kr_Conversion_Rate = Fin (100 / 17) \<rparr>"
    by (rule kpi_row.equality) (simp_all add: v1)
  ultimately show ?thesis
    by (simp only: e list.map snd_conv)
qed

subsection \<open>Sample rows in the two adjusted slices\<close>



lemma sample_seasonal_0: "seasonal_imps df_fact sample_draws ! 0 = 3500"
proof -
  have i: "0 < length df_fact" by (simp add: length_df_fact)
  have ch: "sk_channel (df_fact ! 0) = ''Programmatic''" by (simp add: df_fact_0)
  have "base_imps df_fact sample_draws ! 0 = 5000"
    using rank_less(1)[OF i ch]
    by (simp add: base_imps_nth[OF valid_sample_draws i] ch sample_draws_nth)
  then show ?thesis
    by (simp add: seasonal_imps_nth[OF i] df_fact_0)
qed






end
